theory Spec2Isabelle
  imports Complex_Main
begin

section \<open>Python strings and the batch identifier (db_utils.py, generate_batch_id)\<close>

text \<open>
  Strings are byte strings; the registry's source codes and entity names are ASCII.
  \<open>py_lower\<close> is \<open>str.lower\<close> on ASCII letters and leaves every other byte alone.
\<close>

definition lower_char :: "char \<Rightarrow> char" where
  "lower_char c =
     (if (65::nat) \<le> of_char c \<and> of_char c \<le> (90::nat)
      then char_of (of_char c + (32::nat)) else c)"

definition py_lower :: "string \<Rightarrow> string" where
  "py_lower s = map lower_char s"

definition digit_char :: "nat \<Rightarrow> char" where
  "digit_char d = ''0123456789'' ! (d mod 10)"

fun digits :: "nat \<Rightarrow> string" where
  "digits n = (if n < 10 then [digit_char n] else digits (n div 10) @ [digit_char (n mod 10)])"

declare digits.simps [simp del]

definition zfill :: "nat \<Rightarrow> string \<Rightarrow> string" where
  "zfill w s = replicate (w - length s) (CHR ''0'') @ s"

text \<open>
  \<open>datetime.now()\<close> reads the wall clock; the reading is an argument of the model.
  \<open>strftime\<close> interprets the format string; only the directives the repository uses
  are given a meaning (\<open>%Y %m %d %H %M %S\<close>), any other directive is copied.
\<close>

record datetime =
  year :: nat
  month :: nat
  day :: nat
  hour :: nat
  minute :: nat
  second :: nat
  microsecond :: nat

definition directive :: "datetime \<Rightarrow> char \<Rightarrow> string" where
  "directive dt d =
     (if d = CHR ''Y'' then zfill 4 (digits (year dt))
      else if d = CHR ''m'' then zfill 2 (digits (month dt))
      else if d = CHR ''d'' then zfill 2 (digits (day dt))
      else if d = CHR ''H'' then zfill 2 (digits (hour dt))
      else if d = CHR ''M'' then zfill 2 (digits (minute dt))
      else if d = CHR ''S'' then zfill 2 (digits (second dt))
      else [CHR ''%'', d])"

fun strftime :: "datetime \<Rightarrow> string \<Rightarrow> string" where
  "strftime dt [] = []"
| "strftime dt [c] = [c]"
| "strftime dt (c # d # fmt) =
     (if c = CHR ''%'' then directive dt d @ strftime dt fmt
      else c # strftime dt (d # fmt))"

text \<open>
  \<open>generate_batch_id(source, entity)\<close>: the f-string \<open>{source}_{entity}_{timestamp}\<close>
  with \<open>timestamp = now.strftime('%Y%m%d_%H%M%S')\<close>.
\<close>

definition generate_batch_id :: "string \<Rightarrow> string \<Rightarrow> datetime \<Rightarrow> string" where
  "generate_batch_id source entity now =
     (let timestamp = strftime now ''%Y%m%d_%H%M%S''
      in source @ ''_'' @ entity @ ''_'' @ timestamp)"

section \<open>The source registry (config.py, FILE_TABLE_MAP)\<close>

text \<open>
  The registry is a dict literal; Python dicts keep insertion order, which is the order
  \<open>FILE_TABLE_MAP.keys()\<close> iterates in, so it is an association list here.
\<close>

record mapping =
  table :: string
  source :: string
  entity :: string

definition FILE_TABLE_MAP :: "(string \<times> mapping) list" where
  "FILE_TABLE_MAP =
    [(''pos_transactions_header.csv'',
        \<lparr>table = ''Raw.pos_transactions_header'', source = ''POS'', entity = ''transactions_header''\<rparr>),
     (''pos_transactions_lines.csv'',
        \<lparr>table = ''Raw.pos_transactions_lines'', source = ''POS'', entity = ''transactions_lines''\<rparr>),
     (''erp_products.csv'',
        \<lparr>table = ''Raw.erp_products'', source = ''ERP'', entity = ''products''\<rparr>),
     (''erp_stores.csv'',
        \<lparr>table = ''Raw.erp_stores'', source = ''ERP'', entity = ''stores''\<rparr>),
     (''erp_inventory.csv'',
        \<lparr>table = ''Raw.erp_inventory'', source = ''ERP'', entity = ''inventory''\<rparr>),
     (''crm_customers.csv'',
        \<lparr>table = ''Raw.crm_customers'', source = ''CRM'', entity = ''customers''\<rparr>),
     (''mkt_promotions.csv'',
        \<lparr>table = ''Raw.mkt_promotions'', source = ''MKT'', entity = ''promotions''\<rparr>),
     (''api_weather.csv'',
        \<lparr>table = ''Raw.api_weather'', source = ''API'', entity = ''weather''\<rparr>)]"

section \<open>Values, exceptions and data frames\<close>

text \<open>
  A cell of a pandas frame is a Python value. \<open>PyNaN\<close> is the float NaN that
  \<open>read_csv\<close> puts in place of a missing field; any other float is carried by its
  textual form, since float printing is outside this development. \<open>py_str\<close> is
  \<open>str(v)\<close>.
\<close>

datatype pyval = PyNone | PyNaN | PyStr string | PyInt int | PyBool bool | PyFloat string

fun py_str :: "pyval \<Rightarrow> string" where
  "py_str PyNone = ''None''"
| "py_str PyNaN = ''nan''"
| "py_str (PyStr s) = s"
| "py_str (PyInt i) = (if i < 0 then ''-'' @ digits (nat (- i)) else digits (nat i))"
| "py_str (PyBool b) = (if b then ''True'' else ''False'')"
| "py_str (PyFloat r) = r"

datatype exn =
    AttributeError
  | ValueError
  | FileNotFoundError
  | ParserError string
  | DbError string

record dataframe =
  df_columns :: "string list"
  df_values :: "pyval list list"

text \<open>\<open>df.empty\<close>: some axis has length zero.\<close>

definition df_empty :: "dataframe \<Rightarrow> bool" where
  "df_empty df = (df_columns df = [] \<or> df_values df = [])"

text \<open>\<open>df.astype(str)\<close> and \<open>df.replace(to_replace, value)\<close> with an explicit value
  (whole-cell match, as pandas 1.4 and later document it).\<close>

definition astype_str :: "dataframe \<Rightarrow> dataframe" where
  "astype_str df = df\<lparr>df_values := map (map (\<lambda>v. PyStr (py_str v))) (df_values df)\<rparr>"

definition replace :: "pyval \<Rightarrow> pyval \<Rightarrow> dataframe \<Rightarrow> dataframe" where
  "replace to_replace value df =
     df\<lparr>df_values := map (map (\<lambda>v. if v = to_replace then value else v)) (df_values df)\<rparr>"

text \<open>\<open>df[name] = v\<close> with a scalar: an existing column of that name is overwritten,
  otherwise the column is appended. \<open>df.rename(columns={old: new})\<close> renames labels.\<close>

definition set_column :: "string \<Rightarrow> pyval \<Rightarrow> dataframe \<Rightarrow> dataframe" where
  "set_column name v df =
     (if name \<in> set (df_columns df)
      then df\<lparr>df_values :=
              map (\<lambda>r. map (\<lambda>(c, x). if c = name then v else x) (zip (df_columns df) r))
                (df_values df)\<rparr>
      else \<lparr>df_columns = df_columns df @ [name],
            df_values = map (\<lambda>r. r @ [v]) (df_values df)\<rparr>)"

definition rename :: "string \<Rightarrow> string \<Rightarrow> dataframe \<Rightarrow> dataframe" where
  "rename old new df = df\<lparr>df_columns := map (\<lambda>c. if c = old then new else c) (df_columns df)\<rparr>"

text \<open>\<open>range(start, stop, step)\<close> and the slice \<open>xs[i:j]\<close>, with Python's treatment of a
  zero step and of negative or too large slice bounds.\<close>

function range_list :: "int \<Rightarrow> int \<Rightarrow> int \<Rightarrow> int list" where
  "range_list i stop step =
     (if (0 < step \<and> i < stop) \<or> (step < 0 \<and> stop < i)
      then i # range_list (i + step) stop step else [])"
  by pat_completeness auto
termination
  by (relation "measure (\<lambda>(i, stop, step). nat (if 0 < step then stop - i else i - stop))") auto

declare range_list.simps [simp del]

definition py_range :: "int \<Rightarrow> int \<Rightarrow> int \<Rightarrow> exn + int list" where
  "py_range start stop step = (if step = 0 then Inl ValueError else Inr (range_list start stop step))"

definition slice_bound :: "nat \<Rightarrow> int \<Rightarrow> nat" where
  "slice_bound n k = (if k < 0 then nat (max 0 (int n + k)) else min n (nat k))"

definition slice :: "'a list \<Rightarrow> int \<Rightarrow> int \<Rightarrow> 'a list" where
  "slice xs i j = drop (slice_bound (length xs) i) (take (slice_bound (length xs) j) xs)"



section \<open>The database manager (db_utils.py, DatabaseManager)\<close>

text \<open>
  The state behind a \<open>DatabaseManager\<close>: whether \<open>connect()\<close> has set \<open>conn\<close> and
  \<open>cursor\<close> (both are \<open>None\<close> before), the manifest table, the committed rows of every
  destination table, and the rows inserted in the open transaction (pyodbc connections do
  not autocommit). \<open>issued\<close> lists the \<open>executemany\<close> calls that reached the server, as
  (table, batch), oldest first. \<open>rejects\<close> is the server's verdict on a row for a table: the message of
  the error it raises, or \<open>None\<close> when the row is accepted. The text of the SQL statements
  is not modelled beyond the table and the values they name; \<open>GETDATE()\<close> is an argument.
\<close>

record manifest_record =
  Batch_ID :: string
  Source_System :: string
  Entity_Name :: string
  Source_File :: string
  Row_Count :: int
  Load_Start_TS :: datetime
  Load_End_TS :: "datetime option"
  Load_Status :: string
  Error_Message :: "string option"

record database_manager =
  connected :: bool
  manifest :: "manifest_record list"
  tables :: "string \<Rightarrow> pyval list list"
  pending :: "(string \<times> pyval list) list"
  issued :: "(string \<times> pyval list list) list"
  rejects :: "string \<Rightarrow> pyval list \<Rightarrow> string option"

definition commit :: "database_manager \<Rightarrow> exn option \<times> database_manager" where
  "commit self =
     (if \<not> connected self then (Some AttributeError, self)
      else (None, self\<lparr>tables := fold (\<lambda>(t, r) tb. tb(t := tb t @ [r])) (pending self) (tables self),
                       pending := []\<rparr>))"

definition rollback :: "database_manager \<Rightarrow> exn option \<times> database_manager" where
  "rollback self =
     (if \<not> connected self then (Some AttributeError, self)
      else (None, self\<lparr>pending := []\<rparr>))"

text \<open>\<open>cursor.executemany(sql, batch)\<close> runs the insert once per row, in order, and raises
  at the first row the server rejects; the rows before it stay in the open transaction.\<close>

fun insert_rows :: "database_manager \<Rightarrow> string \<Rightarrow> pyval list list \<Rightarrow> exn option \<times> database_manager" where
  "insert_rows self t [] = (None, self)"
| "insert_rows self t (r # rs) =
     (case rejects self t r of
        Some msg \<Rightarrow> (Some (DbError msg), self)
      | None \<Rightarrow> insert_rows (self\<lparr>pending := pending self @ [(t, r)]\<rparr>) t rs)"

definition executemany :: "database_manager \<Rightarrow> string \<Rightarrow> pyval list list \<Rightarrow> exn option \<times> database_manager" where
  "executemany self t batch =
     (if \<not> connected self then (Some AttributeError, self)
      else insert_rows (self\<lparr>issued := issued self @ [(t, batch)]\<rparr>) t batch)"

text \<open>\<open>complete_manifest\<close>: one UPDATE of every row whose \<open>Batch_ID\<close> matches, then a
  commit; any exception is caught and turned into \<open>False\<close>.\<close>

definition update_manifest ::
  "string \<Rightarrow> int \<Rightarrow> string \<Rightarrow> string option \<Rightarrow> datetime \<Rightarrow> manifest_record \<Rightarrow> manifest_record" where
  "update_manifest batch_id row_count status error_message getdate r =
     (if Batch_ID r = batch_id
      then r\<lparr>Row_Count := row_count, Load_End_TS := Some getdate,
             Load_Status := status, Error_Message := error_message\<rparr>
      else r)"

definition complete_manifest ::
  "database_manager \<Rightarrow> string \<Rightarrow> int \<Rightarrow> string \<Rightarrow> string option \<Rightarrow> datetime
     \<Rightarrow> bool \<times> database_manager" where
  "complete_manifest self batch_id row_count status error_message getdate =
     (if \<not> connected self then (False, self)
      else
        let s1 = self\<lparr>manifest :=
                   map (update_manifest batch_id row_count status error_message getdate) (manifest self)\<rparr>
        in case commit s1 of
             (Some e, s2) \<Rightarrow> (False, s2)
           | (None, s2) \<Rightarrow> (True, s2))"

text \<open>\<open>truncate_table\<close>: TRUNCATE TABLE, then a commit; exceptions become \<open>False\<close>.\<close>

definition truncate_table :: "database_manager \<Rightarrow> string \<Rightarrow> bool \<times> database_manager" where
  "truncate_table self table_name =
     (if \<not> connected self then (False, self)
      else
        let s1 = self\<lparr>tables := (tables self)(table_name := []),
                      pending := filter (\<lambda>(t, r). t \<noteq> table_name) (pending self)\<rparr>
        in case commit s1 of
             (Some e, s2) \<Rightarrow> (False, s2)
           | (None, s2) \<Rightarrow> (True, s2))"

text \<open>
  \<open>bulk_insert_dataframe\<close>. The \<open>for\<close> loop runs over \<open>range(0, len(data), batch_size)\<close>;
  An exception anywhere in the \<open>try\<close> block reaches the
  handler, which rolls back and re-raises it; an exception of the rollback itself replaces it.
\<close>

definition sql_rows :: "dataframe \<Rightarrow> pyval list list" where
  "sql_rows df =
     (let df_str = astype_str df;
          df_str = replace (PyStr ''nan'') PyNone df_str;
          df_str = replace (PyStr ''None'') PyNone df_str
      in df_values df_str)"

fun batch_loop ::
  "database_manager \<Rightarrow> string \<Rightarrow> pyval list list \<Rightarrow> int \<Rightarrow> int list \<Rightarrow> int
     \<Rightarrow> (exn + int) \<times> database_manager" where
  "batch_loop self table_name data batch_size [] total_inserted = (Inr total_inserted, self)"
| "batch_loop self table_name data batch_size (i # rest) total_inserted =
     (let batch = slice data i (i + batch_size)
      in case executemany self table_name batch of
           (Some e, s1) \<Rightarrow> (Inl e, s1)
         | (None, s1) \<Rightarrow>
             (case commit s1 of
                (Some e, s2) \<Rightarrow> (Inl e, s2)
              | (None, s2) \<Rightarrow>
                  batch_loop s2 table_name data batch_size rest
                    (total_inserted + int (length batch))))"

definition reraise :: "exn \<Rightarrow> database_manager \<Rightarrow> (exn + int) \<times> database_manager" where
  "reraise e self =
     (case rollback self of
        (Some e', s) \<Rightarrow> (Inl e', s)
      | (None, s) \<Rightarrow> (Inl e, s))"

definition bulk_insert_dataframe ::
  "database_manager \<Rightarrow> dataframe \<Rightarrow> string \<Rightarrow> int \<Rightarrow> (exn + int) \<times> database_manager" where
  "bulk_insert_dataframe self df table_name batch_size =
     (if df_empty df then (Inr 0, self)
      else
        let data = sql_rows df
        in case py_range 0 (int (length data)) batch_size of
             Inl e \<Rightarrow> reraise e self
           | Inr idx \<Rightarrow>
               (case batch_loop self table_name data batch_size idx 0 of
                  (Inl e, s) \<Rightarrow> reraise e s
                | (Inr n, s) \<Rightarrow> (Inr n, s)))"

text \<open>The batches the loop hands to \<open>executemany\<close>, in issue order.\<close>

definition batches :: "'a list \<Rightarrow> int \<Rightarrow> 'a list list" where
  "batches data batch_size =
     map (\<lambda>i. slice data i (i + batch_size)) (range_list 0 (int (length data)) batch_size)"

section \<open>The ingestion path (ingest_csv.py)\<close>

text \<open>
  The sample directory is a function from file names to what is on disk: nothing, a file
  \<open>read_csv\<close> raises on, or a file it parses into a frame.
\<close>

datatype source_file = Missing | Unparsable string | Csv dataframe

definition path_exists :: "source_file \<Rightarrow> bool" where
  "path_exists f = (f \<noteq> Missing)"

fun read_csv :: "source_file \<Rightarrow> exn + dataframe" where
  "read_csv Missing = Inl FileNotFoundError"
| "read_csv (Unparsable msg) = Inl (ParserError msg)"
| "read_csv (Csv df) = Inr df"

text \<open>Lines 76 to 81: the frame \<open>df\<close> at the point of \<open>Ready for insertion\<close>.\<close>

definition stage_rows :: "string \<Rightarrow> string \<Rightarrow> dataframe \<Rightarrow> dataframe" where
  "stage_rows file_name batch_id df =
     (let df = set_column ''Batch_ID'' (PyStr batch_id) df;
          df = set_column ''Source_File'' (PyStr file_name) df
      in if file_name = ''api_weather.csv'' \<and> ''Store_ID'' \<in> set (df_columns df)
         then rename ''Store_ID'' ''Retail_Location_ID'' df else df)"

text \<open>
  \<open>ingest_csv_file(file_name, truncate)\<close>. \<open>fs\<close> is the sample directory, \<open>now\<close> the clock
  reading of \<open>generate_batch_id\<close>, \<open>db\<close> the state of the database. The function creates
  no \<open>DatabaseManager\<close> and calls none of its methods: the first \<open>return True\<close> of the
  \<open>try\<close> block ends it, so the database is handed back as it came.
\<close>

definition ingest_csv_file ::
  "(string \<Rightarrow> source_file) \<Rightarrow> datetime \<Rightarrow> string \<Rightarrow> bool \<Rightarrow> database_manager
     \<Rightarrow> bool \<times> database_manager" where
  "ingest_csv_file fs now file_name truncate_flag db =
     (if \<not> path_exists (fs file_name) then (False, db)
      else case map_of FILE_TABLE_MAP file_name of
             None \<Rightarrow> (False, db)
           | Some mapping \<Rightarrow>
               let target_table = table mapping;
                   source_system = source mapping;
                   entity_name = entity mapping;
                   batch_id = generate_batch_id (py_lower source_system) entity_name now
               in (case read_csv (fs file_name) of
                     Inl e \<Rightarrow> (False, db)
                   | Inr df \<Rightarrow>
                       (let df = stage_rows file_name batch_id df
                        in (True, db))))"

text \<open>
  \<open>ingest_all_csv_files(truncate)\<close>: the loop over \<open>FILE_TABLE_MAP.keys()\<close>, storing each
  outcome in the \<open>results\<close> dict. \<open>clock f\<close> is the clock reading while \<open>f\<close> is ingested.
\<close>

fun ingest_loop ::
  "(string \<Rightarrow> source_file) \<Rightarrow> (string \<Rightarrow> datetime) \<Rightarrow> bool \<Rightarrow> string list
     \<Rightarrow> (string \<rightharpoonup> bool) \<Rightarrow> database_manager \<Rightarrow> (string \<rightharpoonup> bool) \<times> database_manager" where
  "ingest_loop fs clock truncate_flag [] results db = (results, db)"
| "ingest_loop fs clock truncate_flag (file_name # rest) results db =
     (case ingest_csv_file fs (clock file_name) file_name truncate_flag db of
        (success, db') \<Rightarrow> ingest_loop fs clock truncate_flag rest (results(file_name \<mapsto> success)) db')"

definition ingest_all_csv_files ::
  "(string \<Rightarrow> source_file) \<Rightarrow> (string \<Rightarrow> datetime) \<Rightarrow> bool \<Rightarrow> database_manager
     \<Rightarrow> (string \<rightharpoonup> bool) \<times> database_manager" where
  "ingest_all_csv_files fs clock truncate_flag db =
     ingest_loop fs clock truncate_flag (map fst FILE_TABLE_MAP) Map.empty db"



section \<open>Sample inputs\<close>

text \<open>A clock reading, a parsed file with missing fields, a sample directory and an
  empty, connected database that accepts every row; the theorems below are run on them.\<close>

definition sample_now :: datetime where
  "sample_now = \<lparr>year = 2025, month = 3, day = 7, hour = 9, minute = 5, second = 1,
                  microsecond = 250000\<rparr>"

definition sample_frame :: dataframe where
  "sample_frame =
     \<lparr>df_columns = [''Product_ID'', ''Product_Name'', ''Price''],
      df_values = [[PyInt 1, PyStr ''Tea'', PyFloat ''2.5''],
                   [PyInt 2, PyNaN, PyFloat ''3.0''],
                   [PyInt 3, PyStr ''None'', PyNaN]]\<rparr>"

definition sample_dir :: "string \<Rightarrow> source_file" where
  "sample_dir f =
     (if f = ''erp_products.csv'' then Csv sample_frame
      else if f = ''erp_stores.csv'' then Unparsable ''Error tokenizing data''
      else if f = ''unknown.csv'' then Csv sample_frame
      else Missing)"

definition sample_db :: database_manager where
  "sample_db = \<lparr>connected = True, manifest = [], tables = (\<lambda>t. []), pending = [],
                 issued = [], rejects = (\<lambda>t r. None)\<rparr>"



text \<open>The same database on a server that refuses the row of product 2.\<close>

definition picky_db :: database_manager where
  "picky_db =
     sample_db\<lparr>rejects := (\<lambda>t r. if take 1 r = [PyStr ''2'']
                                  then Some ''String or binary data would be truncated''
                                  else None)\<rparr>"


text \<open>A manifest record as \<open>start_manifest\<close> inserts it, and a database holding it.\<close>

definition started_record :: manifest_record where
  "started_record =
     \<lparr>Batch_ID = ''erp_products_20250307_090501'', Source_System = ''ERP'',
      Entity_Name = ''products'', Source_File = ''erp_products.csv'', Row_Count = 0,
      Load_Start_TS = sample_now, Load_End_TS = None, Load_Status = ''STARTED'',
      Error_Message = None\<rparr>"

definition ledger_db :: database_manager where
  "ledger_db = sample_db\<lparr>manifest := [started_record]\<rparr>"

text \<open>A database whose products table already holds a row.\<close>

definition loaded_db :: database_manager where
  "loaded_db =
     sample_db\<lparr>tables := (\<lambda>t. if t = ''Raw.erp_products'' then [[PyStr ''0'', PyStr ''Old'', PyNone]]
                                else [])\<rparr>"

section \<open>The batch identifier as the specification words it\<close>

text \<open>
  The specification's format: the lowercased source system, the entity name, the date as
  YYYYMMDD and the time as HHMMSS, joined by underscores. The digits are written out
  position by position here, independently of \<open>strftime\<close>.
\<close>

definition two_digits :: "nat \<Rightarrow> string" where
  "two_digits n = [digit_char (n div 10), digit_char n]"

definition four_digits :: "nat \<Rightarrow> string" where
  "four_digits n = [digit_char (n div 1000), digit_char (n div 100), digit_char (n div 10), digit_char n]"

definition spec_batch_id :: "string \<Rightarrow> string \<Rightarrow> datetime \<Rightarrow> string" where
  "spec_batch_id source_system entity_name now =
     py_lower source_system @ ''_'' @ entity_name @ ''_''
       @ four_digits (year now) @ two_digits (month now) @ two_digits (day now) @ ''_''
       @ two_digits (hour now) @ two_digits (minute now) @ two_digits (second now)"

text \<open>The values a Python \<open>datetime\<close> can hold (the length of the month aside).\<close>

definition valid_datetime :: "datetime \<Rightarrow> bool" where
  "valid_datetime dt =
     (1 \<le> year dt \<and> year dt \<le> 9999 \<and> 1 \<le> month dt \<and> month dt \<le> 12 \<and> 1 \<le> day dt \<and> day dt \<le> 31
      \<and> hour dt < 24 \<and> minute dt < 60 \<and> second dt < 60 \<and> microsecond dt < 1000000)"

section \<open>Unmapped files\<close>

text \<open>
  C7. A file name with no entry in the registry makes \<open>ingest_csv_file\<close> return
  \<open>False\<close>, whatever is on disk under that name, and the database comes back exactly
  as it was: no manifest record, no destination row, no call issued.
\<close>

theorem ingest_unmapped_fails:
  "map_of FILE_TABLE_MAP file_name = None \<Longrightarrow>
     ingest_csv_file fs now file_name truncate_flag db = (False, db)"
  by (simp add: ingest_csv_file_def)

theorem ingest_unmapped_fails_witness:
  "map_of FILE_TABLE_MAP ''unknown.csv'' = None \<and> path_exists (sample_dir ''unknown.csv'') \<and>
   ingest_csv_file sample_dir sample_now ''unknown.csv'' False sample_db = (False, sample_db)"
  using ingest_unmapped_fails [of "''unknown.csv''" sample_dir sample_now False sample_db]
  by (simp add: FILE_TABLE_MAP_def sample_dir_def path_exists_def)

section \<open>The batch loop\<close>

lemma insert_rows_keeps [simp]:
  "connected (snd (insert_rows s t rs)) = connected s"
  "rejects (snd (insert_rows s t rs)) = rejects s"
  "manifest (snd (insert_rows s t rs)) = manifest s"
  "tables (snd (insert_rows s t rs)) = tables s"
  "issued (snd (insert_rows s t rs)) = issued s"
  by (induction s t rs rule: insert_rows.induct; simp split: option.split)+

lemma insert_rows_accepted:
  "\<forall>r \<in> set rs. rejects s t r = None \<Longrightarrow>
     insert_rows s t rs = (None, s\<lparr>pending := pending s @ map (Pair t) rs\<rparr>)"
  by (induction rs arbitrary: s) simp_all

lemma insert_rows_rejected:
  "\<forall>r \<in> set good. rejects s t r = None \<Longrightarrow> rejects s t r = Some msg \<Longrightarrow>
     insert_rows s t (good @ r # rest) = (Some (DbError msg), s\<lparr>pending := pending s @ map (Pair t) good\<rparr>)"
  by (induction good arbitrary: s) simp_all

lemma fold_flush:
  "fold (\<lambda>(t, r) tb. tb(t := tb t @ [r])) (map (Pair t) rs) tb = tb(t := tb t @ rs)"
  by (induction rs arbitrary: tb) simp_all

lemma if_fun_upd:
  "(\<lambda>a. if a = t then x else f a) = f(t := x)"
  "(\<lambda>a. if a = t then x else if a = t then y else f a) = f(t := x)"
  by auto

lemma batch_loop_accepted:
  "connected s \<Longrightarrow> pending s = [] \<Longrightarrow>
   \<forall>i \<in> set idx. \<forall>r \<in> set (slice data i (i + B)). rejects s t r = None \<Longrightarrow>
   batch_loop s t data B idx n =
     (Inr (n + int (length (concat (map (\<lambda>i. slice data i (i + B)) idx)))),
      s\<lparr>tables := (tables s)(t := tables s t @ concat (map (\<lambda>i. slice data i (i + B)) idx)),
        issued := issued s @ map (\<lambda>i. (t, slice data i (i + B))) idx\<rparr>)"
proof (induction idx arbitrary: s n)
  case Nil
  then show ?case by simp
next
  case (Cons i idx)
  let ?b = "slice data i (i + B)"
  let ?s1 = "s\<lparr>issued := issued s @ [(t, ?b)]\<rparr>"
  let ?s2 = "s\<lparr>tables := (tables s)(t := tables s t @ ?b), issued := issued s @ [(t, ?b)]\<rparr>"
  have acc: "\<forall>r \<in> set ?b. rejects ?s1 t r = None" using Cons.prems(3) by simp
  have ex: "executemany s t ?b = (None, ?s1\<lparr>pending := map (Pair t) ?b\<rparr>)"
    using Cons.prems(1,2) insert_rows_accepted [OF acc] by (simp add: executemany_def)
  have cm: "commit (?s1\<lparr>pending := map (Pair t) ?b\<rparr>) = (None, ?s2)"
    using Cons.prems(1,2) by (simp add: commit_def fold_flush)
  have ih: "batch_loop ?s2 t data B idx (n + int (length ?b)) =
     (Inr (n + int (length ?b) + int (length (concat (map (\<lambda>i. slice data i (i + B)) idx)))),
      s\<lparr>tables := (tables s)(t := tables s t @ ?b @ concat (map (\<lambda>i. slice data i (i + B)) idx)),
        issued := issued s @ (t, ?b) # map (\<lambda>i. (t, slice data i (i + B))) idx\<rparr>)"
    using Cons.IH [of ?s2 "n + int (length ?b)"] Cons.prems by (simp add: if_fun_upd)
  show ?case
    unfolding batch_loop.simps Let_def ex cm ih prod.case option.case
    by (simp add: if_fun_upd)
qed

lemma batch_loop_rejected:
  "connected s \<Longrightarrow> pending s = [] \<Longrightarrow>
   \<forall>i \<in> set pre. \<forall>r \<in> set (slice data i (i + B)). rejects s t r = None \<Longrightarrow>
   slice data i (i + B) = good @ r # rest \<Longrightarrow>
   \<forall>g \<in> set good. rejects s t g = None \<Longrightarrow> rejects s t r = Some msg \<Longrightarrow>
   batch_loop s t data B (pre @ i # post) n =
     (Inl (DbError msg),
      s\<lparr>tables := (tables s)(t := tables s t @ concat (map (\<lambda>i. slice data i (i + B)) pre)),
        pending := map (Pair t) good,
        issued := issued s @ map (\<lambda>i. (t, slice data i (i + B))) (pre @ [i])\<rparr>)"
proof (induction pre arbitrary: s n)
  case Nil
  let ?b = "slice data i (i + B)"
  let ?s1 = "s\<lparr>issued := issued s @ [(t, ?b)]\<rparr>"
  have "insert_rows ?s1 t (good @ r # rest) = (Some (DbError msg), ?s1\<lparr>pending := pending ?s1 @ map (Pair t) good\<rparr>)"
    using Nil.prems by (intro insert_rows_rejected) simp_all
  then have ex: "executemany s t ?b = (Some (DbError msg), ?s1\<lparr>pending := map (Pair t) good\<rparr>)"
    using Nil.prems by (simp add: executemany_def)
  show ?case unfolding append_Nil batch_loop.simps Let_def ex prod.case option.case by simp
next
  case (Cons j pre)
  let ?b = "slice data j (j + B)"
  let ?s1 = "s\<lparr>issued := issued s @ [(t, ?b)]\<rparr>"
  let ?s2 = "s\<lparr>tables := (tables s)(t := tables s t @ ?b), issued := issued s @ [(t, ?b)]\<rparr>"
  have acc: "\<forall>r \<in> set ?b. rejects ?s1 t r = None" using Cons.prems(3) by simp
  have ex: "executemany s t ?b = (None, ?s1\<lparr>pending := map (Pair t) ?b\<rparr>)"
    using Cons.prems(1,2) insert_rows_accepted [OF acc] by (simp add: executemany_def)
  have cm: "commit (?s1\<lparr>pending := map (Pair t) ?b\<rparr>) = (None, ?s2)"
    using Cons.prems(1,2) by (simp add: commit_def fold_flush)
  have ih: "batch_loop ?s2 t data B (pre @ i # post) (n + int (length ?b)) =
     (Inl (DbError msg),
      s\<lparr>tables := (tables s)(t := tables s t @ ?b @ concat (map (\<lambda>i. slice data i (i + B)) pre)),
        pending := map (Pair t) good,
        issued := issued s @ (t, ?b) # map (\<lambda>i. (t, slice data i (i + B))) (pre @ [i])\<rparr>)"
    using Cons.IH [of ?s2 "n + int (length ?b)"] Cons.prems by (simp add: if_fun_upd)
  show ?case
    unfolding append_Cons batch_loop.simps Let_def ex cm ih prod.case option.case
    by (simp add: if_fun_upd)
qed


section \<open>Ranges, slices and batches\<close>

lemma ceil_div_bounds:
  fixes B N :: int
  assumes B: "0 < B"
  shows "N \<le> ((N + B - 1) div B) * B" and "((N + B - 1) div B - 1) * B < N"
proof -
  let ?M = "N + B - 1"
  have d: "?M = (?M div B) * B + ?M mod B" by simp
  have m: "0 \<le> ?M mod B" "?M mod B < B" using B by simp_all
  show "N \<le> (?M div B) * B" using d m by linarith
  have "(?M div B - 1) * B = (?M div B) * B - B" by (simp add: algebra_simps)
  then show "(?M div B - 1) * B < N" using d m by linarith
qed

lemma ceiling_of_bounds:
  fixes B N L :: int
  assumes B: "0 < B" and lo: "(L - 1) * B < N" and hi: "N \<le> L * B"
  shows "\<lceil>real_of_int N / real_of_int B\<rceil> = L"
proof (rule ceiling_unique)
  have rB: "0 < real_of_int B" using B by simp
  have "real_of_int ((L - 1) * B) < real_of_int N" using lo by (simp only: of_int_less_iff)
  then have "(real_of_int L - 1) * real_of_int B < real_of_int N" by simp
  then show "real_of_int L - 1 < real_of_int N / real_of_int B"
    using rB by (simp add: pos_less_divide_eq)
  have "real_of_int N \<le> real_of_int (L * B)" using hi by (simp only: of_int_le_iff)
  then have "real_of_int N \<le> real_of_int L * real_of_int B" by simp
  then show "real_of_int N / real_of_int B \<le> real_of_int L"
    using rB by (simp add: pos_divide_le_eq)
qed

lemma ceiling_div:
  fixes B N :: int
  assumes B: "0 < B"
  shows "\<lceil>real_of_int N / real_of_int B\<rceil> = (N + B - 1) div B"
  using ceiling_of_bounds [OF B ceil_div_bounds(2) [OF B] ceil_div_bounds(1) [OF B]] .

lemma slice_nonneg:
  "0 \<le> i \<Longrightarrow> 0 \<le> b \<Longrightarrow> slice xs i (i + b) = take (nat b) (drop (nat i) xs)"
proof -
  assume i: "0 \<le> i" and b: "0 \<le> b"
  have c: "nat (i + b) = nat i + nat b" using i b by linarith
  have t: "take (min (length xs) (nat (i + b))) xs = take (nat (i + b)) xs"
    by (simp add: min_def)
  show ?thesis
  proof (cases "nat i \<le> length xs")
    case True
    then show ?thesis
      using i b by (simp add: slice_def slice_bound_def t c drop_take min_def)
  next
    case False
    then show ?thesis
      using i b by (simp add: slice_def slice_bound_def t min_def)
  qed
qed

lemma range_list_concat:
  "0 < B \<Longrightarrow> 0 \<le> i \<Longrightarrow>
     concat (map (\<lambda>i. slice data i (i + B)) (range_list i (int (length data)) B)) = drop (nat i) data"
proof (induction i "int (length data)" B rule: range_list.induct)
  case (1 i B)
  show ?case
  proof (cases "i < int (length data)")
    case True
    have ih: "concat (map (\<lambda>i. slice data i (i + B)) (range_list (i + B) (int (length data)) B)) = drop (nat (i + B)) data"
      using "1.hyps" "1.prems" True by simp
    have "nat (i + B) = nat B + nat i" using "1.prems" by linarith
    then have "take (nat B) (drop (nat i) data) @ drop (nat (i + B)) data = drop (nat i) data"
      by (metis append_take_drop_id drop_drop)
    then show ?thesis
      using "1.prems" True ih by (subst range_list.simps) (simp add: slice_nonneg)
  next
    case False
    then show ?thesis using "1.prems" by (subst range_list.simps) simp
  qed
qed

lemma range_list_length:
  "0 < B \<Longrightarrow> length (range_list i stop B) = nat ((stop - i + B - 1) div B)"
proof (induction i stop B rule: range_list.induct)
  case (1 i stop B)
  show ?case
  proof (cases "i < stop")
    case True
    have ih: "length (range_list (i + B) stop B) = nat ((stop - (i + B) + B - 1) div B)"
      using "1.IH" "1.prems" True by simp
    have nn: "0 \<le> (stop - i - 1) div B" using True "1.prems" by (simp add: pos_imp_zdiv_nonneg_iff)
    have "stop - i + B - 1 = (stop - i - 1) + B" by simp
    then have "(stop - i + B - 1) div B = (stop - i - 1) div B + 1"
      using "1.prems" by (simp only: div_add_self2)
    then show ?thesis
      using "1.prems" True ih nn by (subst range_list.simps) (simp add: nat_add_distrib)
  next
    case False
    then have "(stop - i + B - 1) div B \<le> 0"
      using "1.prems" by (simp add: leI pos_imp_zdiv_pos_iff)
    then show ?thesis using False "1.prems" by (subst range_list.simps) simp
  qed
qed

lemma range_list_nth:
  "0 < B \<Longrightarrow> k < length (range_list i stop B) \<Longrightarrow> range_list i stop B ! k = i + int k * B"
proof (induction i stop B arbitrary: k rule: range_list.induct)
  case (1 i stop B)
  show ?case
  proof (cases "i < stop")
    case True
    then have eq: "range_list i stop B = i # range_list (i + B) stop B"
      using "1.prems" by (subst range_list.simps) simp
    show ?thesis
    proof (cases k)
      case 0
      then show ?thesis by (simp add: eq)
    next
      case (Suc m)
      then have "m < length (range_list (i + B) stop B)" using "1.prems"(2) eq by simp
      then have "range_list (i + B) stop B ! m = i + B + int m * B"
        using "1.IH" [of m] "1.prems"(1) True by simp
      then show ?thesis using Suc by (simp add: eq algebra_simps)
    qed
  next
    case False
    then have "range_list i stop B = []" using "1.prems" by (subst range_list.simps) simp
    then show ?thesis using "1.prems" by simp
  qed
qed

lemma batches_length:
  "0 < B \<Longrightarrow> int (length (batches data B)) = \<lceil>real (length data) / real_of_int B\<rceil>"
proof -
  assume B: "0 < B"
  have nn: "0 \<le> (int (length data) + B - 1) div B"
    using B by (simp add: pos_imp_zdiv_nonneg_iff)
  have "int (length (batches data B)) = (int (length data) + B - 1) div B"
    using B nn by (simp add: batches_def range_list_length)
  then show ?thesis using ceiling_div [OF B, of "int (length data)"] by simp
qed

lemma batches_concat: "0 < B \<Longrightarrow> concat (batches data B) = data"
  using range_list_concat [of B 0 data] by (simp add: batches_def)

lemma batches_nth:
  "0 < B \<Longrightarrow> k < length (batches data B) \<Longrightarrow>
     batches data B ! k = take (nat B) (drop (k * nat B) data)"
proof -
  assume B: "0 < B" and k: "k < length (batches data B)"
  have i: "range_list 0 (int (length data)) B ! k = int k * B"
    using range_list_nth [of B k 0 "int (length data)"] B k by (simp add: batches_def)
  have "nat (int k * B) = k * nat B" using B by (simp add: nat_mult_distrib)
  then show ?thesis
    using B k i slice_nonneg [of "int k * B" B data] by (simp add: batches_def)
qed

lemma batches_sizes: "0 < B \<Longrightarrow> sum_list (map length (batches data B)) = length data"
  using batches_concat [of B data] by (metis length_concat)

lemma batches_nonempty:
  "0 < B \<Longrightarrow> b \<in> set (batches data B) \<Longrightarrow> b \<noteq> [] \<and> length b \<le> nat B"
proof -
  assume B: "0 < B" and b: "b \<in> set (batches data B)"
  let ?M = "int (length data) + B - 1"
  from b obtain k where k: "k < length (batches data B)" and bk: "b = batches data B ! k"
    unfolding in_set_conv_nth by blast
  have eq: "b = take (nat B) (drop (k * nat B) data)" using batches_nth [OF B k] bk by simp
  have "int (length (batches data B)) = ?M div B"
    using B by (simp add: batches_def range_list_length pos_imp_zdiv_nonneg_iff)
  then have "int k + 1 \<le> ?M div B" using k by linarith
  then have le: "(int k + 1) * B \<le> (?M div B) * B"
    using B by (simp only: mult_right_mono less_imp_le)
  have d: "?M = (?M div B) * B + ?M mod B" by simp
  have m: "0 \<le> ?M mod B" using B by simp
  have "(int k + 1) * B = int k * B + B" by (simp add: algebra_simps)
  then have lt: "int k * B < int (length data)" using le d m by linarith
  have "int (k * nat B) = int k * B" using B by simp
  then have "k * nat B < length data" using lt by linarith
  then show ?thesis using B eq by simp
qed


section \<open>The bulk writer\<close>

lemma slice_subset: "set (slice xs i j) \<subseteq> set xs"
proof -
  have "set (slice xs i j) \<subseteq> set (take (slice_bound (length xs) j) xs)"
    unfolding slice_def by (rule set_drop_subset)
  also have "\<dots> \<subseteq> set xs" by (rule set_take_subset)
  finally show ?thesis .
qed

lemma sql_rows_length: "length (sql_rows df) = length (df_values df)"
  by (simp add: sql_rows_def astype_str_def replace_def Let_def)

lemma range_accepted:
  assumes "\<forall>r \<in> set data. rejects s t r = None"
  shows "\<forall>i \<in> set idx. \<forall>r \<in> set (slice data i (i + B)). rejects s t r = None"
proof (intro ballI)
  fix i r assume "r \<in> set (slice data i (i + B))"
  then have "r \<in> set data" using slice_subset [of data i "i + B"] by (rule rev_subsetD)
  then show "rejects s t r = None" using assms by simp
qed

lemma bulk_insert_accepted:
  assumes c: "connected self" and p: "pending self = []" and ne: "\<not> df_empty df"
    and B: "0 < B" and acc: "\<forall>r \<in> set (sql_rows df). rejects self t r = None"
  shows "bulk_insert_dataframe self df t B =
           (Inr (int (length (df_values df))),
            self\<lparr>tables := (tables self)(t := tables self t @ sql_rows df),
                 issued := issued self @ map (Pair t) (batches (sql_rows df) B)\<rparr>)"
proof -
  let ?data = "sql_rows df"
  let ?idx = "range_list 0 (int (length ?data)) B"
  have cc: "concat (map (\<lambda>i. slice ?data i (i + B)) ?idx) = ?data"
    using batches_concat [OF B, of ?data] by (simp add: batches_def)
  have ms: "map (\<lambda>i. (t, slice ?data i (i + B))) ?idx = map (Pair t) (batches ?data B)"
    by (simp add: batches_def)
  have ra: "\<forall>i \<in> set ?idx. \<forall>r \<in> set (slice ?data i (i + B)). rejects self t r = None"
    by (rule range_accepted [OF acc])
  have loop: "batch_loop self t ?data B ?idx 0 =
     (Inr (int (length ?data)),
      self\<lparr>tables := (tables self)(t := tables self t @ ?data),
           issued := issued self @ map (Pair t) (batches ?data B)\<rparr>)"
    using batch_loop_accepted [OF c p ra, of 0] unfolding cc ms by simp
  note loop' = loop [unfolded sql_rows_length]
  show ?thesis
    using ne B by (simp add: bulk_insert_dataframe_def py_range_def Let_def sql_rows_length loop')
qed

lemma bulk_insert_rejected:
  assumes c: "connected self" and p: "pending self = []" and ne: "\<not> df_empty df"
    and B: "0 < B" and k: "k < length (batches (sql_rows df) B)"
    and prior: "\<forall>b \<in> set (take k (batches (sql_rows df) B)). \<forall>r \<in> set b. rejects self t r = None"
    and bk: "batches (sql_rows df) B ! k = good @ r # rest"
    and good: "\<forall>g \<in> set good. rejects self t g = None"
    and bad: "rejects self t r = Some msg"
  shows "bulk_insert_dataframe self df t B =
           (Inl (DbError msg),
            self\<lparr>tables := (tables self)(t := tables self t @ concat (take k (batches (sql_rows df) B))),
                 pending := [],
                 issued := issued self @ map (Pair t) (take (Suc k) (batches (sql_rows df) B))\<rparr>)"
proof -
  let ?data = "sql_rows df"
  let ?idx = "range_list 0 (int (length ?data)) B"
  let ?f = "\<lambda>i. slice ?data i (i + B)"
  have kl: "k < length ?idx" using k by (simp add: batches_def)
  have split: "?idx = take k ?idx @ ?idx ! k # drop (Suc k) ?idx"
    using kl by (rule id_take_nth_drop)
  have tk: "map ?f (take k ?idx) = take k (batches ?data B)"
    by (simp add: batches_def take_map)
  have pre: "\<forall>i \<in> set (take k ?idx). \<forall>r \<in> set (?f i). rejects self t r = None"
  proof
    fix i assume "i \<in> set (take k ?idx)"
    then have "?f i \<in> set (take k (batches ?data B))" unfolding tk [symmetric] by simp
    then show "\<forall>r \<in> set (?f i). rejects self t r = None" using prior by blast
  qed
  have sk: "?f (?idx ! k) = good @ r # rest"
    using bk kl by (simp add: batches_def)
  have iss: "map (\<lambda>i. (t, ?f i)) (take k ?idx @ [?idx ! k]) = map (Pair t) (take (Suc k) (batches ?data B))"
    using kl by (simp add: batches_def take_map take_Suc_conv_app_nth)
  have "batch_loop self t ?data B (take k ?idx @ ?idx ! k # drop (Suc k) ?idx) 0 =
     (Inl (DbError msg),
      self\<lparr>tables := (tables self)(t := tables self t @ concat (map ?f (take k ?idx))),
           pending := map (Pair t) good,
           issued := issued self @ map (\<lambda>i. (t, ?f i)) (take k ?idx @ [?idx ! k])\<rparr>)"
    by (rule batch_loop_rejected [OF c p pre sk good bad])
  then have loop: "batch_loop self t ?data B ?idx 0 =
     (Inl (DbError msg),
      self\<lparr>tables := (tables self)(t := tables self t @ concat (take k (batches ?data B))),
           pending := map (Pair t) good,
           issued := issued self @ map (Pair t) (take (Suc k) (batches ?data B))\<rparr>)"
    unfolding split [symmetric] tk iss .
  show ?thesis
    using ne B c by (simp add: bulk_insert_dataframe_def py_range_def Let_def loop reraise_def rollback_def)
qed

lemma sql_rows_cells:
  "sql_rows df =
     map (map (\<lambda>v. if py_str v = ''nan'' \<or> py_str v = ''None'' then PyNone else PyStr (py_str v)))
       (df_values df)"
  by (simp add: sql_rows_def astype_str_def replace_def Let_def)

lemma sql_rows_no_literal:
  "row \<in> set (sql_rows df) \<Longrightarrow> c \<in> set row \<Longrightarrow> c \<noteq> PyStr ''nan'' \<and> c \<noteq> PyStr ''None''"
  unfolding sql_rows_cells by auto

lemma executemany_issued:
  "set (issued (snd (executemany s t b))) \<subseteq> insert (t, b) (set (issued s))"
  by (auto simp: executemany_def)

lemma commit_issued: "issued (snd (commit s)) = issued s"
  by (simp add: commit_def)

lemma reraise_issued: "issued (snd (reraise e s)) = issued s"
  by (simp add: reraise_def rollback_def)

lemma batch_loop_issued:
  "set (issued (snd (batch_loop s t data B idx n)))
     \<subseteq> set (issued s) \<union> (\<lambda>i. (t, slice data i (i + B))) ` set idx"
proof (induction idx arbitrary: s n)
  case Nil
  then show ?case by simp
next
  case (Cons i idx)
  let ?b = "slice data i (i + B)"
  obtain eo s1 where ex: "executemany s t ?b = (eo, s1)" by (cases "executemany s t ?b")
  have i1: "set (issued s1) \<subseteq> insert (t, ?b) (set (issued s))"
    using executemany_issued [of s t ?b] ex by simp
  show ?case
  proof (cases eo)
    case (Some e)
    then show ?thesis using ex i1 by (auto simp: Let_def)
  next
    case None
    obtain co s2 where cm: "commit s1 = (co, s2)" by (cases "commit s1")
    have i2: "issued s2 = issued s1" using commit_issued [of s1] cm by simp
    show ?thesis
    proof (cases co)
      case (Some e)
      then show ?thesis using ex None cm i1 i2 by (auto simp: Let_def)
    next
      case n2: None
      have "set (issued (snd (batch_loop s2 t data B idx (n + int (length ?b)))))
              \<subseteq> set (issued s2) \<union> (\<lambda>i. (t, slice data i (i + B))) ` set idx"
        by (rule Cons.IH)
      then show ?thesis using ex None cm n2 i1 i2 by (auto simp: Let_def)
    qed
  qed
qed

lemma bulk_insert_issued:
  "set (issued (snd (bulk_insert_dataframe self df t B)))
     \<subseteq> set (issued self) \<union> Pair t ` set (batches (sql_rows df) B)"
proof (cases "df_empty df \<or> B = 0")
  case True
  then show ?thesis
    by (auto simp: bulk_insert_dataframe_def py_range_def Let_def reraise_issued)
next
  case False
  let ?data = "sql_rows df"
  let ?idx = "range_list 0 (int (length ?data)) B"
  obtain res s1 where bl: "batch_loop self t ?data B ?idx 0 = (res, s1)"
    by (cases "batch_loop self t ?data B ?idx 0")
  have "set (issued s1) \<subseteq> set (issued self) \<union> (\<lambda>i. (t, slice ?data i (i + B))) ` set ?idx"
    using batch_loop_issued [of self t ?data B ?idx 0] bl by simp
  then have i1: "set (issued s1) \<subseteq> set (issued self) \<union> Pair t ` set (batches ?data B)"
    by (auto simp: batches_def)
  have "issued (snd (bulk_insert_dataframe self df t B)) = issued s1"
    using False bl
    by (cases res) (simp_all add: bulk_insert_dataframe_def py_range_def Let_def reraise_issued)
  then show ?thesis using i1 by simp
qed

lemma batches_rows: "b \<in> set (batches data B) \<Longrightarrow> set b \<subseteq> set data"
  by (auto simp: batches_def dest: subsetD [OF slice_subset])


section \<open>Batch partitioning\<close>

lemma sample_rows:
  "sql_rows sample_frame =
     [[PyStr ''1'', PyStr ''Tea'', PyStr ''2.5''],
      [PyStr ''2'', PyNone, PyStr ''3.0''],
      [PyStr ''3'', PyNone, PyNone]]"
  by code_simp

lemma sample_batches:
  "batches (sql_rows sample_frame) 2 =
     [[[PyStr ''1'', PyStr ''Tea'', PyStr ''2.5''], [PyStr ''2'', PyNone, PyStr ''3.0'']],
      [[PyStr ''3'', PyNone, PyNone]]]"
  by code_simp

lemma sample_not_empty: "\<not> df_empty sample_frame"
  by (simp add: df_empty_def sample_frame_def)

text \<open>
  C3. For a non-empty frame of N rows and a batch size B of at least 1, the loop runs over
  exactly ceil(N/B) batches; the batches are the consecutive slices of B rows (batch k
  holds the rows at positions k*B up to k*B + B, so no row is in two batches), none is
  empty, their sizes sum to N and their concatenation is the row list in its order. When
  the server accepts every row, the writer issues exactly these batches, in this order,
  commits all the rows in input order and returns N.
\<close>

theorem bulk_writer_partitions:
  assumes B: "1 \<le> B" and ne: "\<not> df_empty df"
  shows "int (length (batches (sql_rows df) B)) = \<lceil>real (length (df_values df)) / real_of_int B\<rceil>
       \<and> concat (batches (sql_rows df) B) = sql_rows df
       \<and> sum_list (map length (batches (sql_rows df) B)) = length (df_values df)
       \<and> (\<forall>k < length (batches (sql_rows df) B).
             batches (sql_rows df) B ! k = take (nat B) (drop (k * nat B) (sql_rows df)))
       \<and> (\<forall>b \<in> set (batches (sql_rows df) B). b \<noteq> [] \<and> length b \<le> nat B)
       \<and> (connected self \<and> pending self = [] \<and> (\<forall>r \<in> set (sql_rows df). rejects self t r = None) \<longrightarrow>
            bulk_insert_dataframe self df t B =
              (Inr (int (length (df_values df))),
               self\<lparr>tables := (tables self)(t := tables self t @ sql_rows df),
                    issued := issued self @ map (Pair t) (batches (sql_rows df) B)\<rparr>))"
proof -
  have B0: "0 < B" using B by simp
  have 1: "int (length (batches (sql_rows df) B)) = \<lceil>real (length (df_values df)) / real_of_int B\<rceil>"
    using batches_length [OF B0, of "sql_rows df"] by (simp add: sql_rows_length)
  have 2: "concat (batches (sql_rows df) B) = sql_rows df"
    by (rule batches_concat [OF B0])
  have 3: "sum_list (map length (batches (sql_rows df) B)) = length (df_values df)"
    using batches_sizes [OF B0, of "sql_rows df"] by (simp add: sql_rows_length)
  have 4: "\<forall>k < length (batches (sql_rows df) B).
             batches (sql_rows df) B ! k = take (nat B) (drop (k * nat B) (sql_rows df))"
    using batches_nth [OF B0] by blast
  have 5: "\<forall>b \<in> set (batches (sql_rows df) B). b \<noteq> [] \<and> length b \<le> nat B"
    using batches_nonempty [OF B0] by blast
  have 6: "connected self \<and> pending self = [] \<and> (\<forall>r \<in> set (sql_rows df). rejects self t r = None) \<longrightarrow>
            bulk_insert_dataframe self df t B =
              (Inr (int (length (df_values df))),
               self\<lparr>tables := (tables self)(t := tables self t @ sql_rows df),
                    issued := issued self @ map (Pair t) (batches (sql_rows df) B)\<rparr>)"
    using bulk_insert_accepted [OF _ _ ne B0] by blast
  show ?thesis using 1 2 3 4 5 6 by (intro conjI)
qed


theorem bulk_writer_partitions_witness:
  "(1::int) \<le> 2 \<and> \<not> df_empty sample_frame
   \<and> int (length (batches (sql_rows sample_frame) 2)) = \<lceil>real (length (df_values sample_frame)) / real_of_int 2\<rceil>
   \<and> length (batches (sql_rows sample_frame) 2) = 2
   \<and> concat (batches (sql_rows sample_frame) 2) = sql_rows sample_frame
   \<and> bulk_insert_dataframe sample_db sample_frame ''Raw.erp_products'' 2 =
        (Inr 3, sample_db\<lparr>tables := (tables sample_db)(''Raw.erp_products'' := sql_rows sample_frame),
                  issued := map (Pair ''Raw.erp_products'') (batches (sql_rows sample_frame) 2)\<rparr>)"
proof -
  have B: "(1::int) \<le> 2" by simp
  have s: "connected sample_db \<and> pending sample_db = [] \<and>
           (\<forall>r \<in> set (sql_rows sample_frame). rejects sample_db ''Raw.erp_products'' r = None)"
    by (simp add: sample_db_def)
  have l: "length (df_values sample_frame) = 3" by (simp add: sample_frame_def)
  have e: "tables sample_db ''Raw.erp_products'' = []" "issued sample_db = []"
    by (simp_all add: sample_db_def)
  show ?thesis
    using bulk_writer_partitions [OF B sample_not_empty, of sample_db "''Raw.erp_products''"] s
    by (simp add: sample_not_empty sample_batches l e)
qed


section \<open>A batch that fails\<close>

lemma picky_batches:
  "batches (sql_rows sample_frame) 1 =
     [[[PyStr ''1'', PyStr ''Tea'', PyStr ''2.5'']],
      [[PyStr ''2'', PyNone, PyStr ''3.0'']],
      [[PyStr ''3'', PyNone, PyNone]]]"
  by code_simp

lemma picky_rejects:
  "rejects picky_db t r =
     (if take 1 r = [PyStr ''2''] then Some ''String or binary data would be truncated'' else None)"
  by (simp add: picky_db_def sample_db_def)

lemma picky_fields:
  "connected picky_db" "pending picky_db = []" "tables picky_db t = []" "issued picky_db = []"
  "manifest picky_db = []"
  by (simp_all add: picky_db_def sample_db_def)

text \<open>
  C2, as the code has it. When the first rejected row lies in batch k, the rows of the k
  batches before it stay committed in the destination table, the rows of batch k that
  were inserted before the rejected one are rolled back, no other table and no manifest
  record changes, and the call ends with the server's exception re-raised. The exception
  is all the caller gets: no row count comes back.
\<close>

theorem batch_failure_keeps_prior_batches:
  assumes c: "connected self" and p: "pending self = []" and ne: "\<not> df_empty df"
    and B: "1 \<le> B" and k: "k < length (batches (sql_rows df) B)"
    and prior: "\<forall>b \<in> set (take k (batches (sql_rows df) B)). \<forall>r \<in> set b. rejects self t r = None"
    and bk: "batches (sql_rows df) B ! k = good @ r # rest"
    and good: "\<forall>g \<in> set good. rejects self t g = None"
    and bad: "rejects self t r = Some msg"
  shows "fst (bulk_insert_dataframe self df t B) = Inl (DbError msg)
       \<and> tables (snd (bulk_insert_dataframe self df t B)) t =
           tables self t @ concat (take k (batches (sql_rows df) B))
       \<and> (\<forall>t'. t' \<noteq> t \<longrightarrow> tables (snd (bulk_insert_dataframe self df t B)) t' = tables self t')
       \<and> pending (snd (bulk_insert_dataframe self df t B)) = []
       \<and> manifest (snd (bulk_insert_dataframe self df t B)) = manifest self
       \<and> issued (snd (bulk_insert_dataframe self df t B)) =
           issued self @ map (Pair t) (take (Suc k) (batches (sql_rows df) B))"
proof -
  have B0: "0 < B" using B by simp
  show ?thesis
    unfolding bulk_insert_rejected [OF c p ne B0 k prior bk good bad] by simp
qed

theorem batch_failure_keeps_prior_batches_witness:
  "fst (bulk_insert_dataframe picky_db sample_frame ''Raw.erp_products'' 1)
     = Inl (DbError ''String or binary data would be truncated'')
   \<and> tables (snd (bulk_insert_dataframe picky_db sample_frame ''Raw.erp_products'' 1)) ''Raw.erp_products''
     = [[PyStr ''1'', PyStr ''Tea'', PyStr ''2.5'']]
   \<and> pending (snd (bulk_insert_dataframe picky_db sample_frame ''Raw.erp_products'' 1)) = []
   \<and> issued (snd (bulk_insert_dataframe picky_db sample_frame ''Raw.erp_products'' 1))
     = [(''Raw.erp_products'', [[PyStr ''1'', PyStr ''Tea'', PyStr ''2.5'']]),
        (''Raw.erp_products'', [[PyStr ''2'', PyNone, PyStr ''3.0'']])]"
proof -
  have B: "(1::int) \<le> 1" by simp
  have k: "(1::nat) < length (batches (sql_rows sample_frame) 1)" by (simp add: picky_batches)
  have prior: "\<forall>b \<in> set (take 1 (batches (sql_rows sample_frame) 1)).
                 \<forall>r \<in> set b. rejects picky_db ''Raw.erp_products'' r = None"
    by (simp add: picky_batches picky_rejects)
  have bk: "batches (sql_rows sample_frame) 1 ! 1 = [] @ [PyStr ''2'', PyNone, PyStr ''3.0''] # []"
    by (simp add: picky_batches)
  have good: "\<forall>g \<in> set []. rejects picky_db ''Raw.erp_products'' g = None" by simp
  have bad: "rejects picky_db ''Raw.erp_products'' [PyStr ''2'', PyNone, PyStr ''3.0'']
               = Some ''String or binary data would be truncated''"
    by (simp add: picky_rejects)
  show ?thesis
    using batch_failure_keeps_prior_batches
      [OF picky_fields(1) picky_fields(2) sample_not_empty B k prior bk good bad]
    by (simp add: picky_batches picky_fields)
qed

text \<open>
  C2 as stated asks the failed call to report the rows committed so far. With one row per
  batch and the second row rejected, one row is committed and the outcome is the
  exception, not the count 1.
\<close>

theorem failed_write_reports_no_count:
  "fst (bulk_insert_dataframe picky_db sample_frame ''Raw.erp_products'' 1)
     = Inl (DbError ''String or binary data would be truncated'')
   \<and> length (tables (snd (bulk_insert_dataframe picky_db sample_frame ''Raw.erp_products'' 1))
        ''Raw.erp_products'') = 1
   \<and> fst (bulk_insert_dataframe picky_db sample_frame ''Raw.erp_products'' 1) \<noteq> Inr 1"
  by code_simp

section \<open>Null normalisation\<close>

text \<open>
  C6. The rows the writer works with are the frame's rows with every cell replaced by its
  text, except that a cell whose text is \<open>nan\<close> or \<open>None\<close> becomes \<open>PyNone\<close>, the SQL
  null. No cell of these rows is the string \<open>nan\<close> or \<open>None\<close>, and every batch that
  \<open>bulk_insert_dataframe\<close> issues is made of such rows. These converted rows are what
  the writer hands over: when the server accepts every row, the batches issued are the
  batches of the converted rows and the destination table grows by exactly the converted
  rows, nulls in place; when a batch fails, the table has grown by the converted rows of
  the batches before it.
\<close>

theorem null_normalisation:
  "sql_rows df =
     map (map (\<lambda>v. if py_str v = ''nan'' \<or> py_str v = ''None'' then PyNone else PyStr (py_str v)))
       (df_values df)
   \<and> (\<forall>row \<in> set (sql_rows df). \<forall>c \<in> set row. c \<noteq> PyStr ''nan'' \<and> c \<noteq> PyStr ''None'')
   \<and> (\<forall>call \<in> set (issued (snd (bulk_insert_dataframe self df t B))).
         call \<in> set (issued self) \<or>
         (\<forall>row \<in> set (snd call). \<forall>c \<in> set row. c \<noteq> PyStr ''nan'' \<and> c \<noteq> PyStr ''None''))
   \<and> (connected self \<and> pending self = [] \<and> \<not> df_empty df \<and> 1 \<le> B
        \<and> (\<forall>r \<in> set (sql_rows df). rejects self t r = None) \<longrightarrow>
        bulk_insert_dataframe self df t B =
          (Inr (int (length (df_values df))),
           self\<lparr>tables := (tables self)(t := tables self t @
                     map (map (\<lambda>v. if py_str v = ''nan'' \<or> py_str v = ''None'' then PyNone
                                    else PyStr (py_str v))) (df_values df)),
                issued := issued self @ map (Pair t)
                  (batches (map (map (\<lambda>v. if py_str v = ''nan'' \<or> py_str v = ''None'' then PyNone
                                           else PyStr (py_str v))) (df_values df)) B)\<rparr>))
   \<and> (\<forall>k good r rest msg.
         connected self \<and> pending self = [] \<and> \<not> df_empty df \<and> 1 \<le> B
         \<and> k < length (batches (sql_rows df) B)
         \<and> (\<forall>b \<in> set (take k (batches (sql_rows df) B)). \<forall>x \<in> set b. rejects self t x = None)
         \<and> batches (sql_rows df) B ! k = good @ r # rest
         \<and> (\<forall>g \<in> set good. rejects self t g = None) \<and> rejects self t r = Some msg \<longrightarrow>
         tables (snd (bulk_insert_dataframe self df t B)) t =
           tables self t @ concat (take k (batches
             (map (map (\<lambda>v. if py_str v = ''nan'' \<or> py_str v = ''None'' then PyNone
                              else PyStr (py_str v))) (df_values df)) B)))"
proof -
  let ?norm = "map (map (\<lambda>v. if py_str v = ''nan'' \<or> py_str v = ''None'' then PyNone
                               else PyStr (py_str v))) (df_values df)"
  have 0: "sql_rows df = ?norm" by (rule sql_rows_cells)
  have 1: "\<forall>row \<in> set (sql_rows df). \<forall>c \<in> set row. c \<noteq> PyStr ''nan'' \<and> c \<noteq> PyStr ''None''"
    using sql_rows_no_literal by blast
  have 2: "\<forall>call \<in> set (issued (snd (bulk_insert_dataframe self df t B))).
         call \<in> set (issued self) \<or>
         (\<forall>row \<in> set (snd call). \<forall>c \<in> set row. c \<noteq> PyStr ''nan'' \<and> c \<noteq> PyStr ''None'')"
  proof
    fix call assume "call \<in> set (issued (snd (bulk_insert_dataframe self df t B)))"
    then have "call \<in> set (issued self) \<union> Pair t ` set (batches (sql_rows df) B)"
      using bulk_insert_issued [of self df t B] by (rule rev_subsetD)
    then show "call \<in> set (issued self) \<or>
         (\<forall>row \<in> set (snd call). \<forall>c \<in> set row. c \<noteq> PyStr ''nan'' \<and> c \<noteq> PyStr ''None'')"
    proof
      assume "call \<in> set (issued self)" then show ?thesis by simp
    next
      assume "call \<in> Pair t ` set (batches (sql_rows df) B)"
      then obtain b where b: "b \<in> set (batches (sql_rows df) B)" and cb: "call = (t, b)" by blast
      have "set b \<subseteq> set (sql_rows df)" by (rule batches_rows [OF b])
      then show ?thesis using 1 cb by auto
    qed
  qed
  have 3: "connected self \<and> pending self = [] \<and> \<not> df_empty df \<and> 1 \<le> B
        \<and> (\<forall>r \<in> set (sql_rows df). rejects self t r = None) \<longrightarrow>
        bulk_insert_dataframe self df t B =
          (Inr (int (length (df_values df))),
           self\<lparr>tables := (tables self)(t := tables self t @ sql_rows df),
                issued := issued self @ map (Pair t) (batches (sql_rows df) B)\<rparr>)"
  proof (intro impI, elim conjE)
    assume c: "connected self" and p: "pending self = []" and ne: "\<not> df_empty df"
      and B: "1 \<le> B" and acc: "\<forall>r \<in> set (sql_rows df). rejects self t r = None"
    have B0: "0 < B" using B by simp
    show "bulk_insert_dataframe self df t B =
          (Inr (int (length (df_values df))),
           self\<lparr>tables := (tables self)(t := tables self t @ sql_rows df),
                issued := issued self @ map (Pair t) (batches (sql_rows df) B)\<rparr>)"
      by (rule bulk_insert_accepted [OF c p ne B0 acc])
  qed
  have 4: "\<forall>k good r rest msg.
         connected self \<and> pending self = [] \<and> \<not> df_empty df \<and> 1 \<le> B
         \<and> k < length (batches (sql_rows df) B)
         \<and> (\<forall>b \<in> set (take k (batches (sql_rows df) B)). \<forall>x \<in> set b. rejects self t x = None)
         \<and> batches (sql_rows df) B ! k = good @ r # rest
         \<and> (\<forall>g \<in> set good. rejects self t g = None) \<and> rejects self t r = Some msg \<longrightarrow>
         tables (snd (bulk_insert_dataframe self df t B)) t =
           tables self t @ concat (take k (batches (sql_rows df) B))"
  proof (intro allI impI, elim conjE)
    fix k good r rest msg
    assume c: "connected self" and p: "pending self = []" and ne: "\<not> df_empty df"
      and B: "1 \<le> B"
      and k: "k < length (batches (sql_rows df) B)"
      and prior: "\<forall>b \<in> set (take k (batches (sql_rows df) B)). \<forall>x \<in> set b. rejects self t x = None"
      and bk: "batches (sql_rows df) B ! k = good @ r # rest"
      and good: "\<forall>g \<in> set good. rejects self t g = None"
      and bad: "rejects self t r = Some msg"
    have B0: "0 < B" using B by simp
    show "tables (snd (bulk_insert_dataframe self df t B)) t =
           tables self t @ concat (take k (batches (sql_rows df) B))"
      unfolding bulk_insert_rejected [OF c p ne B0 k prior bk good bad] by simp
  qed
  show ?thesis
    unfolding 0 [symmetric] using 1 2 3 4 by (intro conjI refl)
qed

theorem null_normalisation_witness:
  "sql_rows sample_frame =
     [[PyStr ''1'', PyStr ''Tea'', PyStr ''2.5''],
      [PyStr ''2'', PyNone, PyStr ''3.0''],
      [PyStr ''3'', PyNone, PyNone]]
   \<and> df_values sample_frame ! 1 ! 1 = PyNaN \<and> df_values sample_frame ! 2 ! 1 = PyStr ''None''
   \<and> sql_rows sample_frame ! 1 ! 1 = PyNone \<and> sql_rows sample_frame ! 2 ! 1 = PyNone
   \<and> sql_rows sample_frame ! 1 ! 1 \<noteq> PyStr ''nan'' \<and> sql_rows sample_frame ! 2 ! 1 \<noteq> PyStr ''None''
   \<and> connected sample_db \<and> pending sample_db = [] \<and> \<not> df_empty sample_frame \<and> (1::int) \<le> 2
   \<and> fst (bulk_insert_dataframe sample_db sample_frame ''Raw.erp_products'' 2) = Inr 3
   \<and> tables (snd (bulk_insert_dataframe sample_db sample_frame ''Raw.erp_products'' 2))
        ''Raw.erp_products''
       = [[PyStr ''1'', PyStr ''Tea'', PyStr ''2.5''],
          [PyStr ''2'', PyNone, PyStr ''3.0''],
          [PyStr ''3'', PyNone, PyNone]]
   \<and> issued (snd (bulk_insert_dataframe sample_db sample_frame ''Raw.erp_products'' 2))
       = [(''Raw.erp_products'', [[PyStr ''1'', PyStr ''Tea'', PyStr ''2.5''],
                                  [PyStr ''2'', PyNone, PyStr ''3.0'']]),
          (''Raw.erp_products'', [[PyStr ''3'', PyNone, PyNone]])]
   \<and> tables (snd (bulk_insert_dataframe picky_db sample_frame ''Raw.erp_products'' 1))
        ''Raw.erp_products''
       = [[PyStr ''1'', PyStr ''Tea'', PyStr ''2.5'']]"
proof -
  let ?norm = "map (map (\<lambda>v. if py_str v = ''nan'' \<or> py_str v = ''None'' then PyNone
                               else PyStr (py_str v))) (df_values sample_frame)"
  have n: "?norm = sql_rows sample_frame" by (rule sql_rows_cells [symmetric])
  have s: "connected sample_db" "pending sample_db = []" "tables sample_db ''Raw.erp_products'' = []"
    "issued sample_db = []"
    by (simp_all add: sample_db_def)
  have acc: "\<forall>r \<in> set (sql_rows sample_frame). rejects sample_db ''Raw.erp_products'' r = None"
    by (simp add: sample_db_def)
  have B2: "(1::int) \<le> 2" and B1: "(1::int) \<le> 1" by simp_all
  have l: "length (df_values sample_frame) = 3" by (simp add: sample_frame_def)
  have k: "(1::nat) < length (batches (sql_rows sample_frame) 1)" by (simp add: picky_batches)
  have prior: "\<forall>b \<in> set (take 1 (batches (sql_rows sample_frame) 1)).
                 \<forall>x \<in> set b. rejects picky_db ''Raw.erp_products'' x = None"
    by (simp add: picky_batches picky_rejects)
  have bk: "batches (sql_rows sample_frame) 1 ! 1 = [] @ [PyStr ''2'', PyNone, PyStr ''3.0''] # []"
    by (simp add: picky_batches)
  have good: "\<forall>g \<in> set []. rejects picky_db ''Raw.erp_products'' g = None" by simp
  have bad: "rejects picky_db ''Raw.erp_products'' [PyStr ''2'', PyNone, PyStr ''3.0'']
               = Some ''String or binary data would be truncated''"
    by (simp add: picky_rejects)
  note t1 = null_normalisation [of sample_frame sample_db "''Raw.erp_products''" 2, unfolded n]
  note t2 = null_normalisation [of sample_frame picky_db "''Raw.erp_products''" 1, unfolded n]
  note w = t1 [THEN conjunct2, THEN conjunct2, THEN conjunct2, THEN conjunct1, rule_format]
  note f = t2 [THEN conjunct2, THEN conjunct2, THEN conjunct2, THEN conjunct2, rule_format]
  have ok: "bulk_insert_dataframe sample_db sample_frame ''Raw.erp_products'' 2 =
          (Inr (int (length (df_values sample_frame))),
           sample_db\<lparr>tables := (tables sample_db)(''Raw.erp_products'' :=
                         tables sample_db ''Raw.erp_products'' @ sql_rows sample_frame),
                issued := issued sample_db @ map (Pair ''Raw.erp_products'')
                  (batches (sql_rows sample_frame) 2)\<rparr>)"
    by (rule w) (intro conjI s(1) s(2) sample_not_empty B2 acc)
  have fail: "tables (snd (bulk_insert_dataframe picky_db sample_frame ''Raw.erp_products'' 1))
                ''Raw.erp_products''
              = tables picky_db ''Raw.erp_products''
                  @ concat (take 1 (batches (sql_rows sample_frame) 1))"
    by (rule f [of 1 "[]" "[PyStr ''2'', PyNone, PyStr ''3.0'']" "[]"
                  "''String or binary data would be truncated''"])
      (intro conjI picky_fields(1) picky_fields(2) sample_not_empty B1 k prior bk good bad)
  have r1: "fst (bulk_insert_dataframe sample_db sample_frame ''Raw.erp_products'' 2) = Inr 3"
    unfolding ok by (simp add: l)
  have r2: "tables (snd (bulk_insert_dataframe sample_db sample_frame ''Raw.erp_products'' 2))
              ''Raw.erp_products''
            = [[PyStr ''1'', PyStr ''Tea'', PyStr ''2.5''],
               [PyStr ''2'', PyNone, PyStr ''3.0''],
               [PyStr ''3'', PyNone, PyNone]]"
    unfolding ok by (simp add: s sample_rows)
  have r3: "issued (snd (bulk_insert_dataframe sample_db sample_frame ''Raw.erp_products'' 2))
            = [(''Raw.erp_products'', [[PyStr ''1'', PyStr ''Tea'', PyStr ''2.5''],
                                       [PyStr ''2'', PyNone, PyStr ''3.0'']]),
               (''Raw.erp_products'', [[PyStr ''3'', PyNone, PyNone]])]"
    unfolding ok by (simp add: s sample_batches)
  have r4: "tables (snd (bulk_insert_dataframe picky_db sample_frame ''Raw.erp_products'' 1))
              ''Raw.erp_products'' = [[PyStr ''1'', PyStr ''Tea'', PyStr ''2.5'']]"
    unfolding fail by (simp add: picky_batches picky_fields)
  have a: "sql_rows sample_frame =
       [[PyStr ''1'', PyStr ''Tea'', PyStr ''2.5''],
        [PyStr ''2'', PyNone, PyStr ''3.0''],
        [PyStr ''3'', PyNone, PyNone]]
     \<and> df_values sample_frame ! 1 ! 1 = PyNaN \<and> df_values sample_frame ! 2 ! 1 = PyStr ''None''
     \<and> sql_rows sample_frame ! 1 ! 1 = PyNone \<and> sql_rows sample_frame ! 2 ! 1 = PyNone
     \<and> sql_rows sample_frame ! 1 ! 1 \<noteq> PyStr ''nan'' \<and> sql_rows sample_frame ! 2 ! 1 \<noteq> PyStr ''None''"
    by (simp add: sample_rows) (simp add: sample_frame_def)
  show ?thesis
    using a r1 r2 r3 r4 s(1) s(2) sample_not_empty B2
    by (elim conjE) (intro conjI; assumption)
qed

section \<open>The batch identifier\<close>

lemma digit_char_mod: "digit_char (n mod 10) = digit_char n"
  by (simp add: digit_char_def)

lemma digits_small: "n < 10 \<Longrightarrow> digits n = [digit_char n]"
  by (simp add: digits.simps)

lemma digits_large: "10 \<le> n \<Longrightarrow> digits n = digits (n div 10) @ [digit_char n]"
  by (subst digits.simps) (simp add: digit_char_mod)

lemma digit_char_zero: "digit_char 0 = CHR ''0''"
  by (simp add: digit_char_def)

lemma zfill_short:
  "zfill 2 [a] = [CHR ''0'', a]" "zfill 2 [a, b] = [a, b]"
  "zfill 4 [a] = [CHR ''0'', CHR ''0'', CHR ''0'', a]"
  "zfill 4 [a, b] = [CHR ''0'', CHR ''0'', a, b]"
  "zfill 4 [a, b, c] = [CHR ''0'', a, b, c]"
  "zfill 4 [a, b, c, d] = [a, b, c, d]"
  by (simp_all add: zfill_def numeral_2_eq_2 numeral_3_eq_3)

lemma digits_two: "10 \<le> n \<Longrightarrow> n < 100 \<Longrightarrow> digits n = [digit_char (n div 10), digit_char n]"
proof -
  assume a: "10 \<le> n" and b: "n < 100"
  have "n div 10 < 10" using b by simp
  then show ?thesis using a by (simp only: digits_large digits_small append_Cons append_Nil)
qed

lemma digits_three:
  "100 \<le> n \<Longrightarrow> n < 1000 \<Longrightarrow> digits n = [digit_char (n div 100), digit_char (n div 10), digit_char n]"
proof -
  assume a: "100 \<le> n" and b: "n < 1000"
  have c: "10 \<le> n div 10" "n div 10 < 100" "10 \<le> n" using a b by simp_all
  have d: "n div 10 div 10 = n div 100" by (simp add: div_mult2_eq)
  show ?thesis
    unfolding digits_large [OF c(3)] digits_two [OF c(1) c(2)] d by simp
qed

lemma digits_four:
  "1000 \<le> n \<Longrightarrow> n < 10000 \<Longrightarrow>
     digits n = [digit_char (n div 1000), digit_char (n div 100), digit_char (n div 10), digit_char n]"
proof -
  assume a: "1000 \<le> n" and b: "n < 10000"
  have c: "100 \<le> n div 10" "n div 10 < 1000" "10 \<le> n" using a b by simp_all
  have d: "n div 10 div 100 = n div 1000" "n div 10 div 10 = n div 100" by (simp_all add: div_mult2_eq)
  show ?thesis
    unfolding digits_large [OF c(3)] digits_three [OF c(1) c(2)] d by simp
qed

lemma zfill_two: "n < 100 \<Longrightarrow> zfill 2 (digits n) = two_digits n"
proof (cases "n < 10")
  case True
  then have "n div 10 = 0" by simp
  then show ?thesis using True
    by (simp only: digits_small zfill_short two_digits_def digit_char_zero)
next
  case False
  assume "n < 100"
  then show ?thesis using False
    by (simp only: digits_two zfill_short two_digits_def not_less)
qed

lemma zfill_four: "n < 10000 \<Longrightarrow> zfill 4 (digits n) = four_digits n"
proof -
  assume n: "n < 10000"
  consider "n < 10" | "10 \<le> n" "n < 100" | "100 \<le> n" "n < 1000" | "1000 \<le> n" by linarith
  then show ?thesis
  proof cases
    case 1
    then have "n div 10 = 0" "n div 100 = 0" "n div 1000 = 0" by simp_all
    then show ?thesis using 1
      by (simp only: digits_small zfill_short four_digits_def digit_char_zero)
  next
    case 2
    then have "n div 100 = 0" "n div 1000 = 0" by simp_all
    then show ?thesis using 2
      by (simp only: digits_two zfill_short four_digits_def digit_char_zero)
  next
    case 3
    then have "n div 1000 = 0" by simp
    then show ?thesis using 3
      by (simp only: digits_three zfill_short four_digits_def digit_char_zero)
  next
    case 4
    then show ?thesis using n
      by (simp only: digits_four zfill_short four_digits_def)
  qed
qed

lemma strftime_fields:
  "strftime dt ''%Y%m%d_%H%M%S'' =
     zfill 4 (digits (year dt)) @ zfill 2 (digits (month dt)) @ zfill 2 (digits (day dt)) @ ''_''
       @ zfill 2 (digits (hour dt)) @ zfill 2 (digits (minute dt)) @ zfill 2 (digits (second dt))"
  by (simp add: directive_def)

lemma sample_now_valid: "valid_datetime sample_now"
  by (simp add: valid_datetime_def sample_now_def)

lemma lower_ERP: "py_lower ''ERP'' = ''erp''"
  by code_simp

lemma sample_digits:
  "two_digits 3 = ''03''" "two_digits 7 = ''07''" "two_digits 9 = ''09''" "two_digits 5 = ''05''"
  "two_digits (Suc 0) = ''01''" "four_digits 2025 = ''2025''"
  by (simp_all add: two_digits_def four_digits_def digit_char_def)

lemma sample_spec_id: "spec_batch_id ''ERP'' ''products'' sample_now = ''erp_products_20250307_090501''"
  by (simp add: spec_batch_id_def sample_now_def lower_ERP sample_digits)

text \<open>
  C8. With the clock reading as the input \<open>now\<close>, the batch id minted at line 64 of
  ingest_csv.py is the lowercased source system, the entity name, the date as YYYYMMDD and
  the time as HHMMSS, joined by underscores; the timestamp part has 15 characters. The id
  is a function of the source system, the entity name and the clock reading down to the
  second: two readings that agree on year, month, day, hour, minute and second give the
  same id, whatever their microseconds. (A clock reading has a four-digit year; for years
  before 1000 the padding of \<open>%Y\<close> depends on the platform and is not a concern here.)
\<close>

theorem batch_id_format:
  assumes v: "valid_datetime now"
  shows "generate_batch_id (py_lower source_system) entity_name now
           = spec_batch_id source_system entity_name now
       \<and> length (strftime now ''%Y%m%d_%H%M%S'') = 15
       \<and> (\<forall>now'. year now' = year now \<and> month now' = month now \<and> day now' = day now
               \<and> hour now' = hour now \<and> minute now' = minute now \<and> second now' = second now
             \<longrightarrow> generate_batch_id (py_lower source_system) entity_name now'
                   = generate_batch_id (py_lower source_system) entity_name now)"
proof -
  have f: "zfill 4 (digits (year now)) = four_digits (year now)"
    "zfill 2 (digits (month now)) = two_digits (month now)"
    "zfill 2 (digits (day now)) = two_digits (day now)"
    "zfill 2 (digits (hour now)) = two_digits (hour now)"
    "zfill 2 (digits (minute now)) = two_digits (minute now)"
    "zfill 2 (digits (second now)) = two_digits (second now)"
    using v by (simp_all add: valid_datetime_def zfill_two zfill_four)
  have 1: "generate_batch_id (py_lower source_system) entity_name now
           = spec_batch_id source_system entity_name now"
    unfolding generate_batch_id_def Let_def strftime_fields f spec_batch_id_def by simp
  have 2: "length (strftime now ''%Y%m%d_%H%M%S'') = 15"
    unfolding strftime_fields f by (simp add: two_digits_def four_digits_def)
  have 3: "\<forall>now'. year now' = year now \<and> month now' = month now \<and> day now' = day now
               \<and> hour now' = hour now \<and> minute now' = minute now \<and> second now' = second now
             \<longrightarrow> generate_batch_id (py_lower source_system) entity_name now'
                   = generate_batch_id (py_lower source_system) entity_name now"
    unfolding generate_batch_id_def Let_def strftime_fields by simp
  show ?thesis using 1 2 3 by (intro conjI)
qed

theorem batch_id_format_witness:
  "valid_datetime sample_now
   \<and> generate_batch_id (py_lower ''ERP'') ''products'' sample_now = ''erp_products_20250307_090501''
   \<and> generate_batch_id (py_lower ''ERP'') ''products'' (sample_now\<lparr>microsecond := 999999\<rparr>)
       = generate_batch_id (py_lower ''ERP'') ''products'' sample_now"
  using batch_id_format [OF sample_now_valid, of "''ERP''" "''products''"]
  by (simp add: sample_now_valid sample_spec_id)


section \<open>The truncate flag\<close>

lemma fold_flush_other:
  "\<forall>p \<in> set ps. fst p \<noteq> t \<Longrightarrow>
     fold (\<lambda>(t, r) tb. tb(t := tb t @ [r])) ps tb t = tb t"
  by (induction ps arbitrary: tb) (auto split: prod.splits)

lemma truncate_table_empties:
  "connected self \<Longrightarrow> tables (snd (truncate_table self t)) t = []"
proof -
  assume c: "connected self"
  have "\<forall>p \<in> set (filter (\<lambda>(t', r). t' \<noteq> t) (pending self)). fst p \<noteq> t" by auto
  then show ?thesis
    using c by (simp add: truncate_table_def commit_def Let_def fold_flush_other)
qed

text \<open>
  C10. The truncate flag is never read: both values of it give the same outcome and the
  same database, and that database is the one passed in. \<open>truncate_table\<close> would empty the
  table; after \<open>ingest_csv_file\<close> a table that held rows still holds them, whatever the
  flag.
\<close>

theorem truncate_ignored:
  "ingest_csv_file fs now file_name True db = ingest_csv_file fs now file_name False db
   \<and> snd (ingest_csv_file fs now file_name truncate_flag db) = db
   \<and> (connected db \<and> tables db t \<noteq> [] \<longrightarrow>
        tables (snd (truncate_table db t)) t = []
        \<and> tables (snd (ingest_csv_file fs now file_name truncate_flag db)) t \<noteq> [])"
  using truncate_table_empties [of db t]
  by (simp add: ingest_csv_file_def Let_def split: option.split sum.split)

theorem truncate_ignored_witness:
  "connected loaded_db \<and> tables loaded_db ''Raw.erp_products'' \<noteq> []
   \<and> ingest_csv_file sample_dir sample_now ''erp_products.csv'' True loaded_db = (True, loaded_db)
   \<and> ingest_csv_file sample_dir sample_now ''erp_products.csv'' False loaded_db = (True, loaded_db)
   \<and> tables (snd (ingest_csv_file sample_dir sample_now ''erp_products.csv'' True loaded_db))
        ''Raw.erp_products'' = [[PyStr ''0'', PyStr ''Old'', PyNone]]
   \<and> tables (snd (truncate_table loaded_db ''Raw.erp_products'')) ''Raw.erp_products'' = []"
proof -
  have l: "connected loaded_db" "tables loaded_db ''Raw.erp_products'' = [[PyStr ''0'', PyStr ''Old'', PyNone]]"
    by (simp_all add: loaded_db_def sample_db_def)
  have i: "ingest_csv_file sample_dir sample_now ''erp_products.csv'' tf loaded_db = (True, loaded_db)" for tf
    by (simp add: ingest_csv_file_def sample_dir_def path_exists_def FILE_TABLE_MAP_def Let_def)
  show ?thesis
    using truncate_ignored [of sample_dir sample_now "''erp_products.csv''" loaded_db True "''Raw.erp_products''"]
    by (simp add: l i)
qed

section \<open>Ingesting every registered file\<close>

lemma ingest_keeps_db: "snd (ingest_csv_file fs now file_name truncate_flag db) = db"
  by (simp add: ingest_csv_file_def Let_def split: option.split sum.split)

lemma ingest_loop_results:
  "ingest_loop fs clock truncate_flag names results db =
     (\<lambda>f. if f \<in> set names then Some (fst (ingest_csv_file fs (clock f) f truncate_flag db))
          else results f, db)"
proof (induction names arbitrary: results)
  case Nil
  then show ?case by simp
next
  case (Cons name names)
  obtain success db' where r: "ingest_csv_file fs (clock name) name truncate_flag db = (success, db')"
    by (cases "ingest_csv_file fs (clock name) name truncate_flag db")
  have d: "db' = db" using ingest_keeps_db [of fs "clock name" name truncate_flag db] r by simp
  show ?case
    unfolding ingest_loop.simps r prod.case Cons.IH d
    using r d by (auto simp: fun_eq_iff)
qed

text \<open>
  C9. \<open>ingest_all_csv_files\<close> returns a dict whose keys are exactly the registered file
  names, and the entry of each file is the outcome of \<open>ingest_csv_file\<close> on that file
  alone: a failure (or success) of any other file has no part in it. \<open>ingest_csv_file\<close>
  turns every exception into \<open>False\<close>, so the loop always reaches every file.
\<close>

theorem ingest_all_covers_registry:
  "dom (fst (ingest_all_csv_files fs clock truncate_flag db)) = fst ` set FILE_TABLE_MAP
   \<and> (\<forall>f \<in> fst ` set FILE_TABLE_MAP.
         fst (ingest_all_csv_files fs clock truncate_flag db) f
           = Some (fst (ingest_csv_file fs (clock f) f truncate_flag db)))
   \<and> snd (ingest_all_csv_files fs clock truncate_flag db) = db"
  unfolding ingest_all_csv_files_def ingest_loop_results
  by (auto simp: dom_def split: if_splits)

lemma sample_outcomes:
  "ingest_csv_file sample_dir now ''pos_transactions_header.csv'' tf db = (False, db)"
  "ingest_csv_file sample_dir now ''erp_products.csv'' tf db = (True, db)"
  "ingest_csv_file sample_dir now ''erp_stores.csv'' tf db = (False, db)"
  by (simp_all add: ingest_csv_file_def sample_dir_def path_exists_def FILE_TABLE_MAP_def Let_def)

theorem ingest_all_covers_registry_witness:
  "fst (ingest_all_csv_files sample_dir (\<lambda>f. sample_now) False sample_db) ''pos_transactions_header.csv'' = Some False
   \<and> fst (ingest_all_csv_files sample_dir (\<lambda>f. sample_now) False sample_db) ''erp_products.csv'' = Some True
   \<and> fst (ingest_all_csv_files sample_dir (\<lambda>f. sample_now) False sample_db) ''erp_stores.csv'' = Some False
   \<and> ''unknown.csv'' \<notin> dom (fst (ingest_all_csv_files sample_dir (\<lambda>f. sample_now) False sample_db))"
  using ingest_all_covers_registry [of sample_dir "\<lambda>f. sample_now" False sample_db]
  by (simp add: FILE_TABLE_MAP_def sample_outcomes)

section \<open>Completing a manifest record\<close>

text \<open>
  C4, as the code has it. \<open>complete_manifest\<close> checks neither the status it is given nor
  the record it updates. On a connected manager it returns \<open>True\<close> for any status string;
  it keeps the number, order and batch ids of the manifest records, overwrites row count,
  end timestamp, status and error text of every record with the given batch id, whatever
  the status of that record was, and leaves all other records alone. When no record has
  the batch id the manifest is unchanged, no record is created, and the result is still
  \<open>True\<close>. Without a connection the exception is caught and the result is \<open>False\<close>.
\<close>

theorem complete_manifest_updates_matches:
  "(connected self \<longrightarrow>
      fst (complete_manifest self batch_id row_count status error_message getdate) = True
    \<and> map Batch_ID (manifest (snd (complete_manifest self batch_id row_count status error_message getdate)))
        = map Batch_ID (manifest self)
    \<and> (\<forall>k < length (manifest self).
          manifest (snd (complete_manifest self batch_id row_count status error_message getdate)) ! k
            = (if Batch_ID (manifest self ! k) = batch_id
               then (manifest self ! k)\<lparr>Row_Count := row_count, Load_End_TS := Some getdate,
                                        Load_Status := status, Error_Message := error_message\<rparr>
               else manifest self ! k))
    \<and> (batch_id \<notin> Batch_ID ` set (manifest self) \<longrightarrow>
          manifest (snd (complete_manifest self batch_id row_count status error_message getdate))
            = manifest self))
   \<and> (\<not> connected self \<longrightarrow>
        complete_manifest self batch_id row_count status error_message getdate = (False, self))"
proof -
  have u: "\<And>r. Batch_ID (update_manifest batch_id row_count status error_message getdate r) = Batch_ID r"
    by (simp add: update_manifest_def)
  have n: "batch_id \<notin> Batch_ID ` set (manifest self) \<Longrightarrow>
           map (update_manifest batch_id row_count status error_message getdate) (manifest self) = manifest self"
    by (rule map_idI) (auto simp: update_manifest_def)
  show ?thesis
    using n by (auto simp: complete_manifest_def commit_def Let_def u update_manifest_def)
qed

lemma ledger_fields:
  "connected ledger_db" "manifest ledger_db = [started_record]" "connected sample_db"
  "manifest sample_db = []"
  by (simp_all add: ledger_db_def sample_db_def)

theorem complete_manifest_updates_matches_witness:
  "connected ledger_db
   \<and> fst (complete_manifest ledger_db ''erp_products_20250307_090501'' 3 ''COMPLETED'' None sample_now) = True
   \<and> map Load_Status (manifest (snd (complete_manifest ledger_db ''erp_products_20250307_090501'' 3
         ''COMPLETED'' None sample_now))) = [''COMPLETED'']
   \<and> map Row_Count (manifest (snd (complete_manifest ledger_db ''erp_products_20250307_090501'' 3
         ''COMPLETED'' None sample_now))) = [3]
   \<and> manifest (snd (complete_manifest ledger_db ''crm_customers_20250307_090501'' 3
         ''COMPLETED'' None sample_now)) = [started_record]"
  using complete_manifest_updates_matches
          [of ledger_db "''erp_products_20250307_090501''" 3 "''COMPLETED''" None sample_now]
        complete_manifest_updates_matches
          [of ledger_db "''crm_customers_20250307_090501''" 3 "''COMPLETED''" None sample_now]
  by (simp add: ledger_fields complete_manifest_def commit_def update_manifest_def started_record_def Let_def)

text \<open>
  C4 as stated fails twice: completing a batch id that has no record returns \<open>True\<close>
  (and writes nothing), and the status \<open>RUNNING\<close> is accepted and stored.
\<close>

theorem complete_manifest_unchecked:
  "fst (complete_manifest sample_db ''erp_products_20250307_090501'' 3 ''COMPLETED'' None sample_now) = True
   \<and> manifest (snd (complete_manifest sample_db ''erp_products_20250307_090501'' 3 ''COMPLETED'' None
         sample_now)) = []
   \<and> fst (complete_manifest ledger_db ''erp_products_20250307_090501'' 3 ''RUNNING'' None sample_now) = True
   \<and> map Load_Status (manifest (snd (complete_manifest ledger_db ''erp_products_20250307_090501'' 3
         ''RUNNING'' None sample_now))) = [''RUNNING'']"
  by (simp add: ledger_fields complete_manifest_def commit_def update_manifest_def started_record_def Let_def)

section \<open>Source files that cannot be read\<close>

text \<open>
  C5, as the code has it. A missing file is caught by the first check of
  \<open>ingest_csv_file\<close>, before the registry is consulted and before a batch id is minted:
  the result is \<open>False\<close> and the database is untouched. A file that \<open>read_csv\<close> cannot
  parse raises inside the \<open>try\<close> block; the handler returns \<open>False\<close>.
\<close>

theorem unreadable_source_returns_false:
  "(fs file_name = Missing \<longrightarrow> ingest_csv_file fs now file_name truncate_flag db = (False, db))
   \<and> (\<forall>msg. fs file_name = Unparsable msg \<longrightarrow>
         fst (ingest_csv_file fs now file_name truncate_flag db) = False)"
  by (auto simp: ingest_csv_file_def path_exists_def Let_def split: option.split)

theorem unreadable_source_returns_false_witness:
  "sample_dir ''crm_customers.csv'' = Missing
   \<and> ingest_csv_file sample_dir sample_now ''crm_customers.csv'' False sample_db = (False, sample_db)
   \<and> sample_dir ''erp_stores.csv'' = Unparsable ''Error tokenizing data''
   \<and> fst (ingest_csv_file sample_dir sample_now ''erp_stores.csv'' False sample_db) = False"
  using unreadable_source_returns_false [of sample_dir "''crm_customers.csv''" sample_now False sample_db]
        unreadable_source_returns_false [of sample_dir "''erp_stores.csv''" sample_now False sample_db]
  by (simp add: sample_dir_def)

text \<open>
  C5 as stated has a manifest record go from STARTED to FAILED. For a registered file that
  is missing, and for one that does not parse, the load fails and the manifest holds no
  record at all afterwards.
\<close>

theorem unreadable_source_leaves_no_record:
  "sample_dir ''crm_customers.csv'' = Missing
   \<and> fst (ingest_csv_file sample_dir sample_now ''crm_customers.csv'' False sample_db) = False
   \<and> manifest (snd (ingest_csv_file sample_dir sample_now ''crm_customers.csv'' False sample_db)) = []
   \<and> sample_dir ''erp_stores.csv'' = Unparsable ''Error tokenizing data''
   \<and> fst (ingest_csv_file sample_dir sample_now ''erp_stores.csv'' False sample_db) = False
   \<and> manifest (snd (ingest_csv_file sample_dir sample_now ''erp_stores.csv'' False sample_db)) = []"
  by (simp add: ingest_csv_file_def sample_dir_def path_exists_def FILE_TABLE_MAP_def Let_def
      sample_db_def)

section \<open>A valid, registered file\<close>

text \<open>
  C1 on the code. The file \<open>erp_products.csv\<close> is registered, exists and parses into three
  rows, which are staged with their batch id and file name. \<open>ingest_csv_file\<close> returns
  \<open>True\<close>, and afterwards the manifest has no record (so none that is COMPLETED with row
  count 3), the destination table has no row, and no batch was issued.
\<close>

theorem valid_file_writes_nothing:
  "read_csv (sample_dir ''erp_products.csv'') = Inr sample_frame
   \<and> map_of FILE_TABLE_MAP ''erp_products.csv''
       = Some \<lparr>table = ''Raw.erp_products'', source = ''ERP'', entity = ''products''\<rparr>
   \<and> length (df_values (stage_rows ''erp_products.csv'' ''erp_products_20250307_090501'' sample_frame)) = 3
   \<and> fst (ingest_csv_file sample_dir sample_now ''erp_products.csv'' False sample_db) = True
   \<and> manifest (snd (ingest_csv_file sample_dir sample_now ''erp_products.csv'' False sample_db)) = []
   \<and> tables (snd (ingest_csv_file sample_dir sample_now ''erp_products.csv'' False sample_db))
        ''Raw.erp_products'' = []
   \<and> issued (snd (ingest_csv_file sample_dir sample_now ''erp_products.csv'' False sample_db)) = []"
  by (simp add: ingest_csv_file_def sample_dir_def path_exists_def FILE_TABLE_MAP_def Let_def
      sample_db_def stage_rows_def set_column_def sample_frame_def)

end
